theory Spec2Isabelle
  imports Main
begin

section \<open>Steps of a context: the admin handlers of \<^verbatim>\<open>handlers/admin/step.py\<close>\<close>

text \<open>
  The module manages the steps of a context: \<^verbatim>\<open>db_create_step\<close>, \<^verbatim>\<open>create_step\<close>,
  \<^verbatim>\<open>update_step\<close>, \<^verbatim>\<open>get_step\<close>, \<^verbatim>\<open>delete_step\<close> and the reconciliation
  \<^verbatim>\<open>db_update_steps\<close>. Exceptions are values of the type \<open>error\<close>; a function that can
  raise returns \<open>error + 'a\<close>. The Storm store is an explicit state that every function takes
  and returns.

  The module uses three names that it neither defines nor imports: \<^verbatim>\<open>log\<close>,
  \<^verbatim>\<open>db_update_field\<close> and \<^verbatim>\<open>db_update_step\<close>. The evaluation of an unbound name
  raises \<open>NameError\<close>, and so does \<^verbatim>\<open>log.err\<close> in both places where the module calls it
  (\<open>log_err\<close>). \<^verbatim>\<open>db_update_field\<close> and \<^verbatim>\<open>db_update_step\<close> are arguments of the
  functions that call them: what is proved of the module's own code holds for every helper,
  the one that only raises \<open>NameError\<close> included, or for every helper that meets a stated
  contract.
\<close>

subsection \<open>Data model\<close>

type_synonym ident = nat
  \<comment> \<open>an identifier (a UUID string in the source); only equality of identifiers matters\<close>
type_synonym lang = string
type_synonym attr = string
type_synonym localized = "attr \<rightharpoonup> (lang \<rightharpoonup> string)"
  \<comment> \<open>a localized attribute holds a dictionary from language code to text\<close>

datatype error =
    StepIdNotFound
  | FieldIdNotFound
  | InvalidInputFormat error  \<comment> \<open>\<^verbatim>\<open>errors.InvalidInputFormat(dberror)\<close> carries its cause\<close>
  | NameError string          \<comment> \<open>the evaluation of a name that is not bound\<close>
  | OtherError string         \<comment> \<open>any other exception, such as a fault of the storage layer\<close>

text \<open>A child reference of a step descriptor: \<^verbatim>\<open>f['id']\<close> and the field's texts.\<close>

record field_desc =
  f_id :: ident
  f_texts :: "attr \<rightharpoonup> string"

text \<open>
  A step descriptor, the dictionary \<^verbatim>\<open>step\<close> / \<^verbatim>\<open>request\<close> of the source. The values of
  its localized keys are texts (\<open>'v = string\<close>) as submitted, and dictionaries from
  language to text (\<open>'v = lang \<rightharpoonup> string\<close>) once \<^verbatim>\<open>fill_localized_keys\<close> has run.
\<close>

record 'v step_desc =
  d_id :: ident
  d_context_id :: ident
  d_number :: int
  d_texts :: "attr \<rightharpoonup> 'v"
  d_children :: "field_desc list"

text \<open>The stored entities \<^verbatim>\<open>models.Step\<close> and \<^verbatim>\<open>models.Field\<close>, and the store.\<close>

record Step =
  step_id :: ident
  step_context_id :: ident
  step_number :: int
  step_localized :: localized
  step_children :: "ident list"

record Field =
  field_id :: ident
  field_localized :: localized

record store =
  store_steps :: "Step list"
  store_fields :: "Field list"

text \<open>The serialized, language-localized view that \<^verbatim>\<open>anon_serialize_step\<close> returns.\<close>

record step_view =
  v_id :: ident
  v_context_id :: ident
  v_number :: int
  v_texts :: "attr \<rightharpoonup> string"
  v_children :: "ident list"

type_synonym field_updater = "store \<Rightarrow> ident \<Rightarrow> field_desc \<Rightarrow> lang \<Rightarrow> error + store"
  \<comment> \<open>the type of \<^verbatim>\<open>db_update_field(store, field_id, field, language)\<close>\<close>
type_synonym step_upserter =
  "store \<Rightarrow> ident \<Rightarrow> string step_desc \<Rightarrow> lang \<Rightarrow> error + (ident \<times> store)"
  \<comment> \<open>the type of \<^verbatim>\<open>db_update_step(store, step_id, step, language)\<close>, which returns an id\<close>

subsection \<open>Collaborators outside the module\<close>

definition Step_localized_strings :: "attr list" where
  \<comment> \<open>Modelled from the spec: \<^verbatim>\<open>models.Step.localized_strings\<close>, the names of the localized
      attributes of the Step schema; the models are not part of the sources.\<close>
  "Step_localized_strings = [''title'', ''description'']"

definition Field_localized_strings :: "attr list" where
  \<comment> \<open>Modelled from the spec: the localized attribute names of the Field schema.\<close>
  "Field_localized_strings = [''title'', ''description'']"

definition localize :: "(attr \<rightharpoonup> string) \<Rightarrow> attr list \<Rightarrow> lang \<Rightarrow> localized" where
  \<comment> \<open>Modelled from the spec: for each localized attribute name of the schema that the
      incoming dictionary supplies, the text becomes the entry of the request language.\<close>
  "localize d keys language =
     (\<lambda>k. if k \<in> set keys then map_option (\<lambda>v. [language \<mapsto> v]) (d k) else None)"

definition fill_localized_keys ::
  "string step_desc \<Rightarrow> attr list \<Rightarrow> lang \<Rightarrow> (lang \<rightharpoonup> string) step_desc" where
  \<comment> \<open>Modelled from the spec: \<^verbatim>\<open>fill_localized_keys(step, keys, language)\<close> of
      \<^verbatim>\<open>globaleaks.utils.structures\<close>, the Localization Merger's filling of a descriptor.\<close>
  "fill_localized_keys d keys language =
     \<lparr>d_id = d_id d, d_context_id = d_context_id d, d_number = d_number d,
      d_texts = localize (d_texts d) keys language, d_children = d_children d\<rparr>"

definition merge_localized :: "localized \<Rightarrow> localized \<Rightarrow> localized" where
  \<comment> \<open>Modelled from the spec: the incoming entries are stored under their language; all
      other languages and the attributes not supplied are left untouched.\<close>
  "merge_localized stored incoming =
     (\<lambda>k. case incoming k of
            None \<Rightarrow> stored k
          | Some v \<Rightarrow> Some ((case stored k of None \<Rightarrow> Map.empty | Some previous \<Rightarrow> previous) ++ v))"

definition Step_get :: "store \<Rightarrow> ident \<Rightarrow> Step option" where
  \<comment> \<open>Modelled from the spec: \<^verbatim>\<open>models.Step.get(store, step_id)\<close>, the same query as
      \<^verbatim>\<open>store.find(models.Step, models.Step.id == step_id).one()\<close>; the id is the key of
      the table.\<close>
  "Step_get st i = find (\<lambda>s. step_id s = i) (store_steps st)"

definition Field_get :: "store \<Rightarrow> ident \<Rightarrow> Field option" where
  \<comment> \<open>Modelled from the spec: \<^verbatim>\<open>models.Field.get(store, id)\<close>, the Field Reference Resolver.\<close>
  "Field_get st i = find (\<lambda>f. field_id f = i) (store_fields st)"

definition new_id :: "Step list \<Rightarrow> ident" where
  \<comment> \<open>Modelled from the spec: the id generated on creation, one that no stored step has.\<close>
  "new_id rows = Suc (foldr max (map step_id rows) 0)"

definition Step_new :: "store \<Rightarrow> (lang \<rightharpoonup> string) step_desc \<Rightarrow> Step \<times> store" where
  \<comment> \<open>Modelled from the spec: \<^verbatim>\<open>models.Step.new(store, step)\<close> allocates a new id, builds the
      step from the descriptor and adds it to the store.\<close>
  "Step_new st d =
     (let s = \<lparr>step_id = new_id (store_steps st), step_context_id = d_context_id d,
               step_number = d_number d, step_localized = d_texts d,
               step_children = map f_id (d_children d)\<rparr>
      in (s, st\<lparr>store_steps := store_steps st @ [s]\<rparr>))"

definition Step_update :: "Step \<Rightarrow> (lang \<rightharpoonup> string) step_desc \<Rightarrow> Step" where
  \<comment> \<open>Modelled from the spec: \<^verbatim>\<open>step.update(request)\<close> takes the attributes of the request,
      merges the localized content and rewrites the children; the id is immutable.\<close>
  "Step_update s d =
     s\<lparr>step_context_id := d_context_id d, step_number := d_number d,
       step_localized := merge_localized (step_localized s) (d_texts d),
       step_children := map f_id (d_children d)\<rparr>"

definition Step_write :: "store \<Rightarrow> ident \<Rightarrow> (lang \<rightharpoonup> string) step_desc \<Rightarrow> store" where
  \<comment> \<open>Modelled from the spec: the store holds the step object, so \<^verbatim>\<open>step.update(request)\<close>
      on the step of an id is the update of the row of that id.\<close>
  "Step_write st i d =
     st\<lparr>store_steps := map (\<lambda>r. if step_id r = i then Step_update r d else r) (store_steps st)\<rparr>"

definition Step_delete :: "store \<Rightarrow> Step \<Rightarrow> store" where
  \<comment> \<open>Modelled from the spec: \<^verbatim>\<open>step.delete(store)\<close> removes the step and, with it, its
      child associations; the Field entities are not removed.\<close>
  "Step_delete st s = st\<lparr>store_steps := filter (\<lambda>r. step_id r \<noteq> step_id s) (store_steps st)\<rparr>"

definition anon_serialize_step :: "store \<Rightarrow> Step \<Rightarrow> lang \<Rightarrow> step_view" where
  \<comment> \<open>Modelled from the spec: the serialized view of a step, localized in the language.\<close>
  "anon_serialize_step st s language =
     \<lparr>v_id = step_id s, v_context_id = step_context_id s, v_number = step_number s,
      v_texts = (\<lambda>k. case step_localized s k of None \<Rightarrow> None | Some m \<Rightarrow> m language),
      v_children = step_children s\<rparr>"

definition transact :: "(store \<Rightarrow> error + ('a \<times> store)) \<Rightarrow> store \<Rightarrow> (error + 'a) \<times> store" where
  \<comment> \<open>Modelled from the spec: the decorator \<^verbatim>\<open>@transact\<close> runs the body in one transaction,
      commits on success and, on any exception, aborts and leaves the prior state.\<close>
  "transact body st =
     (case body st of Inl e \<Rightarrow> (Inl e, st) | Inr (r, st') \<Rightarrow> (Inr r, st'))"

definition transact_ro :: "(store \<Rightarrow> error + 'a) \<Rightarrow> store \<Rightarrow> (error + 'a) \<times> store" where
  \<comment> \<open>Modelled from the spec: the read-only transaction of \<^verbatim>\<open>@transact_ro\<close>.\<close>
  "transact_ro body st = (body st, st)"

subsection \<open>The module's functions\<close>

definition log_err :: "string \<Rightarrow> error + unit" where
  \<comment> \<open>\<^verbatim>\<open>log.err(...)\<close>: the module never binds the name \<^verbatim>\<open>log\<close> (it has no definition and no
      import of it), so the call raises \<open>NameError\<close> before anything is logged.\<close>
  "log_err message = Inl (NameError ''log'')"

text \<open>The loop of \<^verbatim>\<open>db_create_step\<close> over \<^verbatim>\<open>step['children']\<close>.\<close>

fun db_create_step_children ::
  "field_updater \<Rightarrow> store \<Rightarrow> field_desc list \<Rightarrow> lang \<Rightarrow> error + store" where
  "db_create_step_children db_update_field st [] language = Inr st"
| "db_create_step_children db_update_field st (f # rest) language =
     (case Field_get st (f_id f) of
        None \<Rightarrow>
          (case log_err ''Creation error: unexistent field can't be associated'' of
             Inl e \<Rightarrow> Inl e
           | Inr _ \<Rightarrow> Inl FieldIdNotFound)
      | Some field \<Rightarrow>
          (case db_update_field st (f_id f) f language of
             Inl e \<Rightarrow> Inl e
           | Inr st' \<Rightarrow> db_create_step_children db_update_field st' rest language))"

definition db_create_step ::
  "field_updater \<Rightarrow> store \<Rightarrow> string step_desc \<Rightarrow> lang \<Rightarrow> error + (Step \<times> store)" where
  "db_create_step db_update_field st step language =
     (let step' = fill_localized_keys step Step_localized_strings language;
          (s, st1) = Step_new st step'
      in case db_create_step_children db_update_field st1 (d_children step') language of
           Inl e \<Rightarrow> Inl e
         | Inr st2 \<Rightarrow> Inr (s, st2))"

definition create_step ::
  "field_updater \<Rightarrow> store \<Rightarrow> string step_desc \<Rightarrow> lang \<Rightarrow> (error + step_view) \<times> store" where
  "create_step db_update_field st step language =
     transact (\<lambda>st. case db_create_step db_update_field st step language of
                      Inl e \<Rightarrow> Inl e
                    | Inr (s, st') \<Rightarrow> Inr (anon_serialize_step st' s language, st')) st"

text \<open>The loop of \<^verbatim>\<open>update_step\<close> over \<^verbatim>\<open>request['children']\<close>.\<close>

fun update_step_children ::
  "field_updater \<Rightarrow> store \<Rightarrow> field_desc list \<Rightarrow> lang \<Rightarrow> error + store" where
  "update_step_children db_update_field st [] language = Inr st"
| "update_step_children db_update_field st (child # rest) language =
     (case db_update_field st (f_id child) child language of
        Inl e \<Rightarrow> Inl e
      | Inr st' \<Rightarrow> update_step_children db_update_field st' rest language)"

text \<open>The body of the \<^verbatim>\<open>try\<close> block of \<^verbatim>\<open>update_step\<close>; it returns the updated step.\<close>

definition update_step_try ::
  "field_updater \<Rightarrow> store \<Rightarrow> Step option \<Rightarrow> string step_desc \<Rightarrow> lang \<Rightarrow> error + (Step \<times> store)"
  where
  "update_step_try db_update_field st step request language =
     (case step of
        None \<Rightarrow> Inl StepIdNotFound
      | Some s \<Rightarrow>
          (let request' = fill_localized_keys request Step_localized_strings language;
               s' = Step_update s request';
               st1 = Step_write st (step_id s) request'
           in case update_step_children db_update_field st1 (d_children request') language of
                Inl e \<Rightarrow> Inl e
              | Inr st2 \<Rightarrow> Inr (s', st2)))"

definition update_step ::
  "field_updater \<Rightarrow> store \<Rightarrow> ident \<Rightarrow> string step_desc \<Rightarrow> lang \<Rightarrow> (error + step_view) \<times> store"
  where
  "update_step db_update_field st sid request language =
     transact (\<lambda>st.
       let step = Step_get st sid
       in case update_step_try db_update_field st step request language of
            Inl dberror \<Rightarrow>
              (case log_err ''Unable to update step'' of
                 Inl e \<Rightarrow> Inl e
               | Inr _ \<Rightarrow> Inl (InvalidInputFormat dberror))
          | Inr (s', st') \<Rightarrow> Inr (anon_serialize_step st' s' language, st')) st"

definition get_step :: "store \<Rightarrow> ident \<Rightarrow> lang \<Rightarrow> (error + step_view) \<times> store" where
  "get_step st sid language =
     transact_ro (\<lambda>st. case Step_get st sid of
                         None \<Rightarrow> Inl StepIdNotFound
                       | Some step \<Rightarrow> Inr (anon_serialize_step st step language)) st"

definition delete_step :: "store \<Rightarrow> ident \<Rightarrow> (error + unit) \<times> store" where
  "delete_step st sid =
     transact (\<lambda>st. case Step_get st sid of
                      None \<Rightarrow> Inl StepIdNotFound
                    | Some step \<Rightarrow> Inr ((), Step_delete st step)) st"

text \<open>
  The loop of \<^verbatim>\<open>db_update_steps\<close>: each step is stamped with the context id, upserted, and
  the id that the upsert returns is appended to \<^verbatim>\<open>steps_ids\<close>.
\<close>

fun db_update_steps_loop ::
  "step_upserter \<Rightarrow> store \<Rightarrow> ident \<Rightarrow> string step_desc list \<Rightarrow> lang \<Rightarrow> ident list
     \<Rightarrow> error + (ident list \<times> store)" where
  "db_update_steps_loop db_update_step st cid [] language steps_ids = Inr (steps_ids, st)"
| "db_update_steps_loop db_update_step st cid (step # rest) language steps_ids =
     (let step' = step\<lparr>d_context_id := cid\<rparr>
      in case db_update_step st (d_id step') step' language of
           Inl e \<Rightarrow> Inl e
         | Inr (i, st') \<Rightarrow>
             db_update_steps_loop db_update_step st' cid rest language (steps_ids @ [i]))"

definition remove_not_in :: "store \<Rightarrow> ident \<Rightarrow> ident list \<Rightarrow> store" where
  \<comment> \<open>\<^verbatim>\<open>store.find(models.Step, And(models.Step.context_id == context_id,
      Not(In(models.Step.id, steps_ids)))).remove()\<close>\<close>
  "remove_not_in st cid steps_ids =
     st\<lparr>store_steps := filter (\<lambda>s. \<not> (step_context_id s = cid \<and> step_id s \<notin> set steps_ids)) (store_steps st)\<rparr>"

definition db_update_steps ::
  "step_upserter \<Rightarrow> store \<Rightarrow> ident \<Rightarrow> string step_desc list \<Rightarrow> lang \<Rightarrow> error + store" where
  "db_update_steps db_update_step st cid steps language =
     (case db_update_steps_loop db_update_step st cid steps language [] of
        Inl e \<Rightarrow> Inl e
      | Inr (steps_ids, st') \<Rightarrow> Inr (remove_not_in st' cid steps_ids))"

subsection \<open>The two helpers the module calls without defining them\<close>

definition db_update_field :: field_updater where
  \<comment> \<open>Modelled from the spec: the Field subsystem's \<^verbatim>\<open>update(id, attributes, language)\<close>;
      the field must resolve, and its localized content is merged for the language.\<close>
  "db_update_field st fid field language =
     (case Field_get st fid of
        None \<Rightarrow> Inl FieldIdNotFound
      | Some f \<Rightarrow>
          Inr (st\<lparr>store_fields :=
                 map (\<lambda>r. if field_id r = fid
                          then r\<lparr>field_localized :=
                                   merge_localized (field_localized r)
                                     (localize (f_texts field) Field_localized_strings language)\<rparr>
                          else r) (store_fields st)\<rparr>))"

definition db_update_step :: "field_updater \<Rightarrow> step_upserter" where
  \<comment> \<open>Modelled from the spec: update-or-create by id. A stored step with the id is updated
      as the \<^verbatim>\<open>try\<close> block of \<^verbatim>\<open>update_step\<close> does, a failure being signalled as
      \<open>InvalidInputFormat\<close>, and keeps its id; otherwise the step is created by
      \<^verbatim>\<open>db_create_step\<close> and the new id is returned.\<close>
  "db_update_step upd st sid request language =
     (case Step_get st sid of
        Some step \<Rightarrow>
          (case update_step_try upd st (Some step) request language of
             Inl dberror \<Rightarrow> Inl (InvalidInputFormat dberror)
           | Inr (s', st') \<Rightarrow> Inr (step_id s', st'))
      | None \<Rightarrow>
          (case db_create_step upd st request language of
             Inl e \<Rightarrow> Inl e
           | Inr (s, st') \<Rightarrow> Inr (step_id s, st')))"

subsection \<open>Contracts of the helpers, and example data\<close>

definition example_store :: store where
  \<comment> \<open>Context 7 holds the steps 1, 2 and 4, context 8 holds the step 3; one field, 10.\<close>
  "example_store =
     \<lparr>store_steps =
        [\<lparr>step_id = 1, step_context_id = 7, step_number = 1,
          step_localized = [''title'' \<mapsto> [''en'' \<mapsto> ''Intro'', ''it'' \<mapsto> ''Introduzione'']],
          step_children = [10]\<rparr>,
         \<lparr>step_id = 2, step_context_id = 7, step_number = 2,
          step_localized = Map.empty, step_children = []\<rparr>,
         \<lparr>step_id = 4, step_context_id = 7, step_number = 3,
          step_localized = Map.empty, step_children = []\<rparr>,
         \<lparr>step_id = 3, step_context_id = 8, step_number = 1,
          step_localized = Map.empty, step_children = []\<rparr>],
      store_fields = [\<lparr>field_id = 10, field_localized = Map.empty\<rparr>]\<rparr>"

definition example_step :: "ident \<Rightarrow> string \<Rightarrow> ident list \<Rightarrow> string step_desc" where
  \<comment> \<open>A submitted descriptor with a title and children; it names context 8.\<close>
  "example_step i title kids =
     \<lparr>d_id = i, d_context_id = 8, d_number = 1, d_texts = [''title'' \<mapsto> title],
      d_children = map (\<lambda>k. \<lparr>f_id = k, f_texts = Map.empty\<rparr>) kids\<rparr>"

definition example_first :: Step where
  \<comment> \<open>The first step of the example store, with a title in two languages.\<close>
  "example_first =
     \<lparr>step_id = 1, step_context_id = 7, step_number = 1,
      step_localized = [''title'' \<mapsto> [''en'' \<mapsto> ''Intro'', ''it'' \<mapsto> ''Introduzione'']],
      step_children = [10]\<rparr>"

definition reconcile ::
  "step_upserter \<Rightarrow> store \<Rightarrow> ident \<Rightarrow> string step_desc list \<Rightarrow> lang \<Rightarrow> (error + unit) \<times> store" where
  \<comment> \<open>Modelled from the spec: the Step Service runs the reconciliation in one read-write
      transaction. The module has no such function: \<^verbatim>\<open>db_update_steps\<close> runs inside the
      transaction of its caller.\<close>
  "reconcile upsert st cid steps language =
     transact (\<lambda>st. case db_update_steps upsert st cid steps language of
                      Inl e \<Rightarrow> Inl e
                    | Inr st' \<Rightarrow> Inr ((), st')) st"

definition context_step_ids :: "store \<Rightarrow> ident \<Rightarrow> ident set" where
  \<comment> \<open>The ids of the stored steps whose context id is \<open>cid\<close>.\<close>
  "context_step_ids st cid =
     set (map step_id (filter (\<lambda>s. step_context_id s = cid) (store_steps st)))"

definition upsert_contract :: "step_upserter \<Rightarrow> bool" where
  \<comment> \<open>The contract of \<^verbatim>\<open>db_update_step\<close> that \<^verbatim>\<open>db_update_steps\<close> relies on: the id it
      returns is the id of a stored step of the descriptor's context, and the steps that
      context had before are still steps of it.\<close>
  "upsert_contract upsert =
     (\<forall>st sid step language i st'.
        upsert st sid step language = Inr (i, st') \<longrightarrow>
          i \<in> context_step_ids st' (d_context_id step)
          \<and> context_step_ids st (d_context_id step) \<subseteq> context_step_ids st' (d_context_id step))"

definition keeps_steps :: "field_updater \<Rightarrow> bool" where
  \<comment> \<open>The update of a field leaves the stored steps as they are.\<close>
  "keeps_steps upd =
     (\<forall>st fid f language st'. upd st fid f language = Inr st' \<longrightarrow> store_steps st' = store_steps st)"

definition localized_text :: "Step \<Rightarrow> attr \<Rightarrow> lang \<Rightarrow> string option" where
  \<comment> \<open>The text of a localized attribute of a step in one language.\<close>
  "localized_text s k l = (case step_localized s k of None \<Rightarrow> None | Some m \<Rightarrow> m l)"

subsection \<open>Functions used to describe a run of the reconciliation\<close>

definition step_write :: "lang \<Rightarrow> string step_desc \<Rightarrow> Step \<Rightarrow> Step" where
  \<comment> \<open>The update of a stored step by a submitted step: \<^verbatim>\<open>step.update(request)\<close> after
      \<^verbatim>\<open>fill_localized_keys\<close>.\<close>
  "step_write language r x = Step_update x (fill_localized_keys r Step_localized_strings language)"

definition apply_step :: "lang \<Rightarrow> string step_desc \<Rightarrow> Step \<Rightarrow> Step" where
  \<comment> \<open>What the update path of the upsert of \<open>r\<close> does to a row of the step table.\<close>
  "apply_step language r x = (if step_id x = d_id r then step_write language r x else x)"

definition apply_field :: "lang \<Rightarrow> field_desc \<Rightarrow> Field \<Rightarrow> Field" where
  \<comment> \<open>What \<^verbatim>\<open>db_update_field\<close> for the child \<open>c\<close> does to a row of the field table.\<close>
  "apply_field language c x =
     (if field_id x = f_id c
      then x\<lparr>field_localized :=
               merge_localized (field_localized x)
                 (localize (f_texts c) Field_localized_strings language)\<rparr>
      else x)"

definition stamp :: "ident \<Rightarrow> string step_desc \<Rightarrow> string step_desc" where
  \<comment> \<open>\<^verbatim>\<open>step['context_id'] = context_id\<close>\<close>
  "stamp cid r = r\<lparr>d_context_id := cid\<rparr>"


definition fwrite :: "localized \<Rightarrow> Field \<Rightarrow> Field" where
  \<comment> \<open>A merge of localized content into a field.\<close>
  "fwrite D x = x\<lparr>field_localized := merge_localized (field_localized x) D\<rparr>"

definition field_write :: "lang \<Rightarrow> field_desc \<Rightarrow> Field \<Rightarrow> Field" where
  \<comment> \<open>The merge that \<^verbatim>\<open>db_update_field\<close> for the child \<open>c\<close> performs.\<close>
  "field_write language c = fwrite (localize (f_texts c) Field_localized_strings language)"



section \<open>Basic facts\<close>

lemma Step_get_None: "Step_get st i = None \<longleftrightarrow> i \<notin> step_id ` set (store_steps st)"
  by (auto simp: Step_get_def find_None_iff)

lemma Step_get_Some: "Step_get st i = Some s \<Longrightarrow> step_id s = i \<and> s \<in> set (store_steps st)"
  by (auto simp: Step_get_def find_Some_iff)

lemma Field_get_Step_new [simp]: "Field_get (snd (Step_new st d)) j = Field_get st j"
  by (simp add: Step_new_def Field_get_def Let_def)

lemma d_children_fill [simp]: "d_children (fill_localized_keys d keys language) = d_children d"
  by (simp add: fill_localized_keys_def)

lemma db_create_step_unfold:
  "db_create_step upd st step language =
     (case db_create_step_children upd
             (snd (Step_new st (fill_localized_keys step Step_localized_strings language)))
             (d_children step) language of
        Inl e \<Rightarrow> Inl e
      | Inr st2 \<Rightarrow>
          Inr (fst (Step_new st (fill_localized_keys step Step_localized_strings language)), st2))"
  by (simp add: db_create_step_def Let_def case_prod_beta)

lemma db_update_field_keeps_steps: "keeps_steps db_update_field"
  by (auto simp: keeps_steps_def db_update_field_def split: option.splits)

lemma step_id_Step_update [simp]: "step_id (Step_update s d) = step_id s"
  by (simp add: Step_update_def)

lemma step_context_id_Step_update [simp]: "step_context_id (Step_update s d) = d_context_id d"
  by (simp add: Step_update_def)

lemma d_context_id_fill [simp]:
  "d_context_id (fill_localized_keys d keys language) = d_context_id d"
  by (simp add: fill_localized_keys_def)

lemma new_id_fresh: "s \<in> set rows \<Longrightarrow> step_id s < new_id rows"
  by (induction rows) (auto simp: new_id_def)

lemma context_step_idsI:
  "r \<in> set (store_steps st) \<Longrightarrow> step_id r = j \<Longrightarrow> step_context_id r = c \<Longrightarrow>
   j \<in> context_step_ids st c"
  by (auto simp: context_step_ids_def)

lemma context_step_ids_pairs:
  "context_step_ids st c =
     set (map fst (filter (\<lambda>p. snd p = c)
                     (map (\<lambda>s. (step_id s, step_context_id s)) (store_steps st))))"
  by (simp add: context_step_ids_def filter_map comp_def)

lemmas run_defs =
  example_store_def example_step_def db_update_step_def Step_get_def update_step_try_def
  Let_def fill_localized_keys_def Step_write_def Step_update_def db_update_field_def
  Field_get_def db_create_step_def Step_new_def new_id_def log_err_def

section \<open>update\_step: what reaches the caller when the update fails\<close>

text \<open>
  C2. The claim: for a step id that no stored step has, \<^verbatim>\<open>update_step\<close> fails with
  \<open>StepIdNotFound\<close>, which reaches the caller unmodified. The source raises
  \<open>StepIdNotFound\<close> inside the \<^verbatim>\<open>try\<close> block, so the handler of that block catches it,
  and the handler's first statement, \<^verbatim>\<open>log.err\<close>, raises \<open>NameError\<close>: on the empty store,
  for every request, language and field updater, the block fails with \<open>StepIdNotFound\<close>
  and the caller receives \<open>NameError\<close>.
\<close>

theorem update_step_missing_id:
  "update_step_try upd \<lparr>store_steps = [], store_fields = []\<rparr>
       (Step_get \<lparr>store_steps = [], store_fields = []\<rparr> 5) request language
     = Inl StepIdNotFound
   \<and> update_step upd \<lparr>store_steps = [], store_fields = []\<rparr> 5 request language
     = (Inl (NameError ''log''), \<lparr>store_steps = [], store_fields = []\<rparr>)"
  by (simp add: update_step_def transact_def Step_get_def update_step_try_def log_err_def)

text \<open>
  C10. The claim: every exception raised inside the \<^verbatim>\<open>try\<close> block of \<^verbatim>\<open>update_step\<close> is
  caught and raised again as \<open>InvalidInputFormat\<close> carrying the cause. The handler does catch
  every exception, but \<^verbatim>\<open>log.err\<close> raises \<open>NameError\<close> before the handler reaches its
  \<^verbatim>\<open>raise\<close>: the call fails with \<open>NameError\<close> exactly when the block fails, whatever the
  cause and whatever \<^verbatim>\<open>db_update_field\<close> does, and it never fails with
  \<open>InvalidInputFormat\<close>.
\<close>

theorem update_step_never_wraps:
  "((\<exists>cause. update_step_try upd st (Step_get st sid) request language = Inl cause)
      = (update_step upd st sid request language = (Inl (NameError ''log''), st)))
   \<and> update_step upd st sid request language \<noteq> (Inl (InvalidInputFormat cause'), st')
   \<and> update_step upd example_store 9 request language = (Inl (NameError ''log''), example_store)"
  by (auto simp: update_step_def transact_def update_step_try_def Let_def log_err_def
        Step_get_def example_store_def
      split: sum.splits option.splits prod.splits)

section \<open>delete\_step\<close>

text \<open>
  C8. For a step id that no stored step has, \<^verbatim>\<open>delete_step\<close> fails with
  \<open>StepIdNotFound\<close> and the store after the call is the store before it. For the id of a
  stored step, \<^verbatim>\<open>delete_step\<close> succeeds, the steps left are the stored steps with another
  id (the step's record, which holds its child associations, is gone), and the stored fields
  are the same as before.
\<close>

theorem delete_step_spec:
  "(sid \<notin> step_id ` set (store_steps st) \<longrightarrow> delete_step st sid = (Inl StepIdNotFound, st))
   \<and> (sid \<in> step_id ` set (store_steps st) \<longrightarrow>
        (\<exists>st'. delete_step st sid = (Inr (), st')
           \<and> store_steps st' = filter (\<lambda>r. step_id r \<noteq> sid) (store_steps st)
           \<and> sid \<notin> step_id ` set (store_steps st')
           \<and> store_fields st' = store_fields st))"
proof (cases "Step_get st sid")
  case None
  then have "sid \<notin> step_id ` set (store_steps st)" by (simp add: Step_get_None)
  with None show ?thesis
    by (simp add: delete_step_def transact_def)
next
  case (Some s)
  then have "step_id s = sid" "sid \<in> step_id ` set (store_steps st)"
    using Step_get_Some by auto
  with Some show ?thesis
    by (auto simp: delete_step_def transact_def Step_delete_def)
qed

theorem delete_step_spec_witness:
  "delete_step example_store 9 = (Inl StepIdNotFound, example_store)
   \<and> (\<exists>st'. delete_step example_store 1 = (Inr (), st')
         \<and> map step_id (store_steps st') = [2, 4, 3]
         \<and> store_fields st' = store_fields example_store)"
  using delete_step_spec [of 9 example_store] delete_step_spec [of 1 example_store]
  by (auto simp: example_store_def)

section \<open>create\_step: a child that does not resolve\<close>

text \<open>
  C3. The claim: if an id of the children of a step descriptor resolves to no stored field,
  \<^verbatim>\<open>create_step\<close> fails with \<open>FieldIdNotFound\<close> and persists no step. The source looks the
  field up and, when there is none, calls \<^verbatim>\<open>log.err\<close> before it raises
  \<open>FieldIdNotFound\<close>; that call raises \<open>NameError\<close>. On the example store, whose only
  field is 10, a descriptor with the child 11 makes \<^verbatim>\<open>db_create_step\<close> and
  \<^verbatim>\<open>create_step\<close> fail with \<open>NameError\<close>, for every \<^verbatim>\<open>db_update_field\<close>; so does a
  descriptor with the children 10 and 11 when the update of the field 10 succeeds. The
  transaction leaves the store as it was: no step is persisted.
\<close>

theorem create_step_unresolved_child:
  "db_create_step upd example_store (example_step 0 ''Consent'' [11]) ''en''
     = Inl (NameError ''log'')
   \<and> create_step upd example_store (example_step 0 ''Consent'' [11]) ''en''
     = (Inl (NameError ''log''), example_store)
   \<and> create_step db_update_field example_store (example_step 0 ''Consent'' [10, 11]) ''en''
     = (Inl (NameError ''log''), example_store)"
  by (simp add: create_step_def transact_def db_create_step_unfold Step_new_def Let_def
        example_store_def example_step_def Field_get_def log_err_def db_update_field_def)

section \<open>db\_update\_steps: the reconciliation\<close>

lemma loop_stamp:
  "db_update_steps_loop upsert st cid (map (\<lambda>s. s\<lparr>d_context_id := f s\<rparr>) steps) language acc
     = db_update_steps_loop upsert st cid steps language acc"
  by (induction steps arbitrary: st acc) (auto simp: Let_def split: sum.splits)

lemma loop_stamp_upsert:
  "db_update_steps_loop (\<lambda>st sid step. upsert st sid (step\<lparr>d_context_id := cid\<rparr>))
       st cid steps language acc
     = db_update_steps_loop upsert st cid steps language acc"
  by (induction steps arbitrary: st acc) (auto simp: Let_def split: sum.splits)

text \<open>
  C5. With an empty list of steps \<^verbatim>\<open>db_update_steps\<close> succeeds, whatever the upsert is:
  no stored step of the context is left, and the steps of the other contexts, like the
  fields, are the same as before.
\<close>

theorem db_update_steps_empty:
  "\<exists>st'. db_update_steps upsert st cid [] language = Inr st'
      \<and> filter (\<lambda>s. step_context_id s = cid) (store_steps st') = []
      \<and> filter (\<lambda>s. step_context_id s \<noteq> cid) (store_steps st')
          = filter (\<lambda>s. step_context_id s \<noteq> cid) (store_steps st)
      \<and> store_steps st' = filter (\<lambda>s. step_context_id s \<noteq> cid) (store_steps st)
      \<and> store_fields st' = store_fields st"
  by (simp add: db_update_steps_def remove_not_in_def)

lemma loop_append:
  "db_update_steps_loop upsert st cid (xs @ ys) language acc =
     (case db_update_steps_loop upsert st cid xs language acc of
        Inl e \<Rightarrow> Inl e
      | Inr (ids, st1) \<Rightarrow> db_update_steps_loop upsert st1 cid ys language ids)"
  by (induction xs arbitrary: st acc) (auto simp: Let_def split: sum.splits)

lemma loop_Inl:
  "db_update_steps_loop upsert st cid steps language acc = Inl e \<Longrightarrow>
   \<exists>before step rest ids st1. steps = before @ step # rest
      \<and> db_update_steps_loop upsert st cid before language acc = Inr (ids, st1)
      \<and> upsert st1 (d_id step) (step\<lparr>d_context_id := cid\<rparr>) language = Inl e"
proof (induction steps arbitrary: st acc)
  case Nil
  then show ?case by simp
next
  case (Cons x xs)
  show ?case
  proof (cases "upsert st (d_id x) (x\<lparr>d_context_id := cid\<rparr>) language")
    case (Inl e')
    with Cons.prems have "e' = e" by (simp add: Let_def)
    with Inl have "x # xs = [] @ x # xs
        \<and> db_update_steps_loop upsert st cid [] language acc = Inr (acc, st)
        \<and> upsert st (d_id x) (x\<lparr>d_context_id := cid\<rparr>) language = Inl e" by simp
    then show ?thesis by blast
  next
    case (Inr p)
    obtain i st' where p: "p = (i, st')" by (cases p)
    with Inr Cons.prems have
      "db_update_steps_loop upsert st' cid xs language (acc @ [i]) = Inl e"
      by (simp add: Let_def)
    from Cons.IH [OF this] obtain before step rest ids st1 where
      r: "xs = before @ step # rest"
         "db_update_steps_loop upsert st' cid before language (acc @ [i]) = Inr (ids, st1)"
         "upsert st1 (d_id step) (step\<lparr>d_context_id := cid\<rparr>) language = Inl e"
      by blast
    from r(2) Inr p have
      "db_update_steps_loop upsert st cid (x # before) language acc = Inr (ids, st1)"
      by (simp add: Let_def)
    with r(1) r(3) have "x # xs = (x # before) @ step # rest
        \<and> db_update_steps_loop upsert st cid (x # before) language acc = Inr (ids, st1)
        \<and> upsert st1 (d_id step) (step\<lparr>d_context_id := cid\<rparr>) language = Inl e" by simp
    then show ?thesis by blast
  qed
qed

text \<open>
  C6. \<^verbatim>\<open>db_update_steps\<close> has no handler: if the upserts of the steps before a step succeed
  and the upsert of that step fails with an error, the call fails with that very error,
  whatever the upsert is, and the transaction that runs the call leaves the store as it was
  before. Conversely, every failure of the call is the error of the upsert of one submitted
  step.
\<close>

theorem db_update_steps_failure:
  "(db_update_steps_loop upsert st cid before language [] = Inr (ids, st1)
      \<and> upsert st1 (d_id step) (step\<lparr>d_context_id := cid\<rparr>) language = Inl e \<longrightarrow>
      db_update_steps upsert st cid (before @ step # rest) language = Inl e
      \<and> reconcile upsert st cid (before @ step # rest) language = (Inl e, st))
   \<and> (db_update_steps upsert st cid steps language = Inl e \<longrightarrow>
        reconcile upsert st cid steps language = (Inl e, st)
        \<and> (\<exists>before step rest ids st1. steps = before @ step # rest
             \<and> db_update_steps_loop upsert st cid before language [] = Inr (ids, st1)
             \<and> upsert st1 (d_id step) (step\<lparr>d_context_id := cid\<rparr>) language = Inl e))"
proof (intro conjI impI)
  assume a: "db_update_steps_loop upsert st cid before language [] = Inr (ids, st1)
      \<and> upsert st1 (d_id step) (step\<lparr>d_context_id := cid\<rparr>) language = Inl e"
  then show f: "db_update_steps upsert st cid (before @ step # rest) language = Inl e"
    by (simp add: db_update_steps_def loop_append Let_def)
  then show "reconcile upsert st cid (before @ step # rest) language = (Inl e, st)"
    by (simp add: reconcile_def transact_def)
next
  assume a: "db_update_steps upsert st cid steps language = Inl e"
  then show "reconcile upsert st cid steps language = (Inl e, st)"
    by (simp add: reconcile_def transact_def)
  from a have "db_update_steps_loop upsert st cid steps language [] = Inl e"
    by (simp add: db_update_steps_def split: sum.splits prod.splits)
  then show "\<exists>before step rest ids st1. steps = before @ step # rest
             \<and> db_update_steps_loop upsert st cid before language [] = Inr (ids, st1)
             \<and> upsert st1 (d_id step) (step\<lparr>d_context_id := cid\<rparr>) language = Inl e"
    by (rule loop_Inl)
qed

theorem db_update_steps_failure_witness:
  "db_update_steps (db_update_step db_update_field) example_store 7
       ([example_step 1 ''Start'' [10]] @ example_step 2 ''Consent'' [11] # [example_step 4 ''End'' []]) ''en''
     = Inl (InvalidInputFormat FieldIdNotFound)
   \<and> reconcile (db_update_step db_update_field) example_store 7
       ([example_step 1 ''Start'' [10]] @ example_step 2 ''Consent'' [11] # [example_step 4 ''End'' []]) ''en''
     = (Inl (InvalidInputFormat FieldIdNotFound), example_store)"
proof -
  have "\<exists>ids st1.
      db_update_steps_loop (db_update_step db_update_field) example_store 7
          [example_step 1 ''Start'' [10]] ''en'' [] = Inr (ids, st1)
      \<and> db_update_step db_update_field st1 (d_id (example_step 2 ''Consent'' [11]))
           ((example_step 2 ''Consent'' [11])\<lparr>d_context_id := 7\<rparr>) ''en'' = Inl (InvalidInputFormat FieldIdNotFound)"
    by (simp add: run_defs)
  then obtain ids st1 where
    "db_update_steps_loop (db_update_step db_update_field) example_store 7
          [example_step 1 ''Start'' [10]] ''en'' [] = Inr (ids, st1)
      \<and> db_update_step db_update_field st1 (d_id (example_step 2 ''Consent'' [11]))
           ((example_step 2 ''Consent'' [11])\<lparr>d_context_id := 7\<rparr>) ''en'' = Inl (InvalidInputFormat FieldIdNotFound)"
    by blast
  with db_update_steps_failure
         [of "db_update_step db_update_field" example_store 7 "[example_step 1 ''Start'' [10]]"
             "''en''" ids st1 "example_step 2 ''Consent'' [11]" "InvalidInputFormat FieldIdNotFound"
             "[example_step 4 ''End'' []]"]
  show ?thesis by blast
qed

lemma update_step_children_steps:
  "keeps_steps upd \<Longrightarrow> update_step_children upd st cs language = Inr st' \<Longrightarrow>
   store_steps st' = store_steps st"
proof (induction cs arbitrary: st)
  case Nil
  then show ?case by simp
next
  case (Cons c cs)
  from Cons.prems(2) obtain st1 where
    a: "upd st (f_id c) c language = Inr st1"
    and b: "update_step_children upd st1 cs language = Inr st'"
    by (auto split: sum.splits)
  from a Cons.prems(1) have "store_steps st1 = store_steps st"
    unfolding keeps_steps_def by blast
  with Cons.IH [OF Cons.prems(1) b] show ?case by simp
qed

lemma db_create_step_children_steps:
  "keeps_steps upd \<Longrightarrow> db_create_step_children upd st cs language = Inr st' \<Longrightarrow>
   store_steps st' = store_steps st"
proof (induction cs arbitrary: st)
  case Nil
  then show ?case by simp
next
  case (Cons c cs)
  from Cons.prems(2) obtain st1 where
    a: "upd st (f_id c) c language = Inr st1"
    and b: "db_create_step_children upd st1 cs language = Inr st'"
    by (auto simp: log_err_def split: sum.splits option.splits)
  from a Cons.prems(1) have "store_steps st1 = store_steps st"
    unfolding keeps_steps_def by blast
  with Cons.IH [OF Cons.prems(1) b] show ?case by simp
qed

lemma update_step_try_steps:
  assumes "keeps_steps upd"
    and "update_step_try upd st (Some s) request language = Inr (s', st')"
  shows "s' = Step_update s (fill_localized_keys request Step_localized_strings language)
         \<and> store_steps st'
             = map (\<lambda>r. if step_id r = step_id s
                         then Step_update r (fill_localized_keys request Step_localized_strings language)
                         else r) (store_steps st)"
proof -
  let ?d = "fill_localized_keys request Step_localized_strings language"
  from assms(2) have s': "s' = Step_update s ?d"
    and c: "update_step_children upd (Step_write st (step_id s) ?d) (d_children request) language
              = Inr st'"
    by (auto simp: update_step_try_def Let_def split: sum.splits)
  from update_step_children_steps [OF assms(1) c] s' show ?thesis
    by (simp add: Step_write_def)
qed

lemma db_create_step_steps:
  assumes "keeps_steps upd"
    and "db_create_step upd st request language = Inr (s, st')"
  shows "s = fst (Step_new st (fill_localized_keys request Step_localized_strings language))
         \<and> store_steps st' = store_steps st @ [s]"
proof -
  let ?d = "fill_localized_keys request Step_localized_strings language"
  from assms(2) have s: "s = fst (Step_new st ?d)"
    and c: "db_create_step_children upd (snd (Step_new st ?d)) (d_children request) language
              = Inr st'"
    by (auto simp: db_create_step_unfold split: sum.splits)
  from db_create_step_children_steps [OF assms(1) c] s show ?thesis
    by (simp add: Step_new_def Let_def)
qed

lemma db_update_step_returns:
  assumes "keeps_steps upd"
    and "db_update_step upd st sid request language = Inr (i, st')"
  shows "(if sid \<in> step_id ` set (store_steps st) then i = sid
          else i = new_id (store_steps st) \<and> i \<notin> step_id ` set (store_steps st))"
proof (cases "Step_get st sid")
  case None
  with assms(2) obtain s where c: "db_create_step upd st request language = Inr (s, st')"
    and i: "i = step_id s"
    by (auto simp: db_update_step_def split: sum.splits)
  from db_create_step_steps [OF assms(1) c] i have "i = new_id (store_steps st)"
    by (simp add: Step_new_def Let_def)
  moreover have "new_id (store_steps st) \<notin> step_id ` set (store_steps st)"
    using new_id_fresh by fastforce
  ultimately show ?thesis using None by (simp add: Step_get_None)
next
  case (Some s)
  with assms(2) obtain s' where c: "update_step_try upd st (Some s) request language = Inr (s', st')"
    and i: "i = step_id s'"
    by (auto simp: db_update_step_def split: sum.splits)
  from update_step_try_steps [OF assms(1) c] i Step_get_Some [OF Some] show ?thesis
    by auto
qed

lemma db_update_step_contract:
  assumes "keeps_steps upd"
  shows "upsert_contract (db_update_step upd)"
  unfolding upsert_contract_def
proof (intro allI impI)
  fix st sid request language i st'
  assume a: "db_update_step upd st sid request language = Inr (i, st')"
  let ?c = "d_context_id request"
  let ?d = "fill_localized_keys request Step_localized_strings language"
  show "i \<in> context_step_ids st' ?c \<and> context_step_ids st ?c \<subseteq> context_step_ids st' ?c"
  proof (cases "Step_get st sid")
    case None
    with a obtain s where c: "db_create_step upd st request language = Inr (s, st')"
      and i: "i = step_id s"
      by (auto simp: db_update_step_def split: sum.splits)
    from db_create_step_steps [OF assms c] have
      "store_steps st' = store_steps st @ [s]" and "step_context_id s = ?c"
      by (simp_all add: Step_new_def Let_def)
    with i show ?thesis by (auto simp: context_step_ids_def)
  next
    case (Some s)
    with a obtain s' where c: "update_step_try upd st (Some s) request language = Inr (s', st')"
      and i: "i = step_id s'"
      by (auto simp: db_update_step_def split: sum.splits)
    from update_step_try_steps [OF assms c] have
      s': "s' = Step_update s ?d" and
      rows: "store_steps st' = map (\<lambda>r. if step_id r = step_id s then Step_update r ?d else r) (store_steps st)"
      by simp_all
    from Step_get_Some [OF Some] have "s \<in> set (store_steps st)" by simp
    with rows have "Step_update s ?d \<in> set (store_steps st')" by force
    with s' i have 1: "i \<in> context_step_ids st' ?c"
      by (auto intro!: context_step_idsI [where r = "Step_update s ?d"])
    have 2: "context_step_ids st ?c \<subseteq> context_step_ids st' ?c"
    proof
      fix j assume "j \<in> context_step_ids st ?c"
      then obtain r where r: "r \<in> set (store_steps st)" "step_id r = j" "step_context_id r = ?c"
        by (auto simp: context_step_ids_def)
      let ?r = "if step_id r = step_id s then Step_update r ?d else r"
      from r(1) rows have "?r \<in> set (store_steps st')" by force
      moreover from r have "step_id ?r = j" "step_context_id ?r = ?c" by simp_all
      ultimately show "j \<in> context_step_ids st' ?c"
        by (rule context_step_idsI)
    qed
    from 1 2 show ?thesis by simp
  qed
qed

lemma context_step_ids_remove:
  "context_step_ids (remove_not_in st cid ids) cid = context_step_ids st cid \<inter> set ids"
  by (auto simp: context_step_ids_def remove_not_in_def)

lemma loop_kept:
  assumes "upsert_contract upsert"
  shows "db_update_steps_loop upsert st cid steps language acc = Inr (ids, st1) \<Longrightarrow>
         set acc \<subseteq> context_step_ids st cid \<Longrightarrow>
         set ids \<subseteq> context_step_ids st1 cid \<and> length ids = length acc + length steps"
proof (induction steps arbitrary: st acc)
  case Nil
  then show ?case by simp
next
  case (Cons x xs)
  from Cons.prems(1) obtain i st' where
    up: "upsert st (d_id x) (x\<lparr>d_context_id := cid\<rparr>) language = Inr (i, st')"
    and rest: "db_update_steps_loop upsert st' cid xs language (acc @ [i]) = Inr (ids, st1)"
    by (auto simp: Let_def split: sum.splits)
  from assms up have "i \<in> context_step_ids st' cid"
    and "context_step_ids st cid \<subseteq> context_step_ids st' cid"
    unfolding upsert_contract_def by fastforce+
  with Cons.prems(2) have "set (acc @ [i]) \<subseteq> context_step_ids st' cid" by auto
  from Cons.IH [OF rest this] show ?case by simp
qed

text \<open>
  C9. \<^verbatim>\<open>db_update_steps\<close> overwrites the context id of every submitted step with its
  argument before the upsert runs. When the steps before a submitted step have been upserted,
  the call that the loop makes for that step is the upsert of the step with the context id of
  the reconciliation, and its result decides how the reconciliation goes on. Hence the result
  does not depend on the context ids that the submitted steps carry, the upsert only ever
  sees the context id of the call, and, with an upsert that stores the step in the context
  it is given, every id the loop collects is the id of a step of that context.
\<close>

theorem db_update_steps_stamps_context:
  "(db_update_steps_loop upsert st cid before language [] = Inr (ids, st1) \<longrightarrow>
      db_update_steps upsert st cid (before @ step # rest) language =
        (case upsert st1 (d_id step) (step\<lparr>d_context_id := cid\<rparr>) language of
           Inl e \<Rightarrow> Inl e
         | Inr (i, st2) \<Rightarrow>
             (case db_update_steps_loop upsert st2 cid rest language (ids @ [i]) of
                Inl e \<Rightarrow> Inl e
              | Inr (ids', st3) \<Rightarrow> Inr (remove_not_in st3 cid ids'))))
   \<and> db_update_steps upsert st cid (map (\<lambda>s. s\<lparr>d_context_id := f s\<rparr>) steps) language
     = db_update_steps upsert st cid steps language
   \<and> db_update_steps (\<lambda>st sid step. upsert st sid (step\<lparr>d_context_id := cid\<rparr>))
        st cid steps language
     = db_update_steps upsert st cid steps language
   \<and> (upsert_contract upsert
        \<and> db_update_steps_loop upsert st cid steps language [] = Inr (ids, st1) \<longrightarrow>
      set ids \<subseteq> context_step_ids st1 cid)"
proof (intro conjI impI)
  assume "db_update_steps_loop upsert st cid before language [] = Inr (ids, st1)"
  then show "db_update_steps upsert st cid (before @ step # rest) language =
        (case upsert st1 (d_id step) (step\<lparr>d_context_id := cid\<rparr>) language of
           Inl e \<Rightarrow> Inl e
         | Inr (i, st2) \<Rightarrow>
             (case db_update_steps_loop upsert st2 cid rest language (ids @ [i]) of
                Inl e \<Rightarrow> Inl e
              | Inr (ids', st3) \<Rightarrow> Inr (remove_not_in st3 cid ids')))"
    by (simp add: db_update_steps_def loop_append Let_def split: sum.splits prod.splits)
next
  show "db_update_steps upsert st cid (map (\<lambda>s. s\<lparr>d_context_id := f s\<rparr>) steps) language
     = db_update_steps upsert st cid steps language"
    by (simp add: db_update_steps_def loop_stamp)
next
  show "db_update_steps (\<lambda>st sid step. upsert st sid (step\<lparr>d_context_id := cid\<rparr>))
        st cid steps language
     = db_update_steps upsert st cid steps language"
    by (simp add: db_update_steps_def loop_stamp_upsert)
next
  assume a: "upsert_contract upsert
        \<and> db_update_steps_loop upsert st cid steps language [] = Inr (ids, st1)"
  from a have c: "upsert_contract upsert" by (rule conjunct1)
  from a have l: "db_update_steps_loop upsert st cid steps language [] = Inr (ids, st1)"
    by (rule conjunct2)
  from loop_kept [OF c l] show "set ids \<subseteq> context_step_ids st1 cid" by simp
qed

theorem db_update_steps_stamps_context_witness:
  "d_context_id (example_step 9 ''Consent'' []) = 8
   \<and> (\<exists>st'. db_update_steps (db_update_step db_update_field) example_store 7
               ([] @ example_step 9 ''Consent'' [] # []) ''en'' = Inr st'
           \<and> context_step_ids st' 7 = {5}
           \<and> context_step_ids st' 8 = {3})"
proof -
  have h: "db_update_steps_loop (db_update_step db_update_field) example_store 7 [] ''en'' []
             = Inr ([], example_store)" by simp
  have eq: "db_update_steps (db_update_step db_update_field) example_store 7
              ([] @ example_step 9 ''Consent'' [] # []) ''en'' =
        (case db_update_step db_update_field example_store (d_id (example_step 9 ''Consent'' []))
                ((example_step 9 ''Consent'' [])\<lparr>d_context_id := 7\<rparr>) ''en'' of
           Inl e \<Rightarrow> Inl e
         | Inr (i, st2) \<Rightarrow>
             (case db_update_steps_loop (db_update_step db_update_field) st2 7 [] ''en'' ([] @ [i]) of
                Inl e \<Rightarrow> Inl e
              | Inr (ids', st3) \<Rightarrow> Inr (remove_not_in st3 7 ids')))"
    by (rule db_update_steps_stamps_context [THEN conjunct1, THEN mp, OF h])
  have "\<exists>st'. db_update_steps (db_update_step db_update_field) example_store 7
               ([] @ example_step 9 ''Consent'' [] # []) ''en'' = Inr st'
           \<and> map (\<lambda>s. (step_id s, step_context_id s)) (store_steps st') = [(3, 8), (5, 7)]"
    unfolding eq by (simp add: run_defs remove_not_in_def)
  then obtain st' where
    r: "db_update_steps (db_update_step db_update_field) example_store 7
               ([] @ example_step 9 ''Consent'' [] # []) ''en'' = Inr st'"
    and rows: "map (\<lambda>s. (step_id s, step_context_id s)) (store_steps st') = [(3, 8), (5, 7)]"
    by (elim exE conjE)
  have c7: "context_step_ids st' 7 = {5}" by (simp add: context_step_ids_pairs rows)
  have c8: "context_step_ids st' 8 = {3}" by (simp add: context_step_ids_pairs rows)
  have d: "d_context_id (example_step 9 ''Consent'' []) = 8"
    by (simp add: example_step_def)
  show ?thesis
    by (rule conjI [OF d]) (rule exI [of _ st'], intro conjI r c7 c8)
qed

text \<open>
  C1. After a successful \<^verbatim>\<open>db_update_steps\<close>, the ids of the stored steps of the context
  are exactly the ids that the upserts of the submitted steps returned, one for each
  submitted step, in any order of submission. This holds for every \<^verbatim>\<open>db_update_step\<close>
  that returns the id of a step it has stored in the context it was given and removes no step
  from that context; the update-or-create of the spec is one (\<open>db_update_step_contract\<close>),
  and it returns the id of the submitted step when a stored step has it and a new id
  otherwise (\<open>db_update_step_returns\<close>).
\<close>

theorem db_update_steps_exact:
  assumes "upsert_contract upsert"
    and "db_update_steps upsert st cid steps language = Inr st'"
  shows "\<exists>ids st1. db_update_steps_loop upsert st cid steps language [] = Inr (ids, st1)
           \<and> length ids = length steps
           \<and> context_step_ids st' cid = set ids"
proof -
  from assms(2) obtain ids st1 where
    l: "db_update_steps_loop upsert st cid steps language [] = Inr (ids, st1)"
    and st': "st' = remove_not_in st1 cid ids"
    by (auto simp: db_update_steps_def split: sum.splits)
  from loop_kept [OF assms(1) l] have "set ids \<subseteq> context_step_ids st1 cid"
    and "length ids = length steps" by simp_all
  with l st' show ?thesis by (auto simp: context_step_ids_remove)
qed

theorem db_update_steps_exact_witness:
  "\<exists>st'. db_update_steps (db_update_step db_update_field) example_store 7
            [example_step 1 ''Start'' [10], example_step 9 ''Consent'' [], example_step 4 ''End'' []] ''en''
          = Inr st'
        \<and> (\<exists>ids st1. db_update_steps_loop (db_update_step db_update_field) example_store 7
              [example_step 1 ''Start'' [10], example_step 9 ''Consent'' [], example_step 4 ''End'' []]
              ''en'' [] = Inr (ids, st1)
            \<and> ids = [1, 5, 4]
            \<and> context_step_ids st' 7 = {1, 5, 4})"
proof -
  let ?steps = "[example_step 1 ''Start'' [10], example_step 9 ''Consent'' [], example_step 4 ''End'' []]"
  have l: "\<exists>st1. db_update_steps_loop (db_update_step db_update_field) example_store 7 ?steps ''en'' []
             = Inr ([1, 5, 4], st1)"
    by (simp add: run_defs)
  then obtain st1 where l1: "db_update_steps_loop (db_update_step db_update_field) example_store 7 ?steps ''en'' []
             = Inr ([1, 5, 4], st1)" by blast
  then obtain st' where s: "db_update_steps (db_update_step db_update_field) example_store 7 ?steps ''en'' = Inr st'"
    by (simp add: db_update_steps_def)
  from db_update_steps_exact [OF db_update_step_contract [OF db_update_field_keeps_steps] s] l1
  have "context_step_ids st' 7 = {1, 5, 4}" by auto
  with s l1 show ?thesis by auto
qed

section \<open>update\_step: the localized content\<close>

lemma find_map_same:
  "(\<And>r. P (f r) = P r) \<Longrightarrow> find P (map f xs) = map_option f (find P xs)"
  by (induction xs) auto

lemma Step_get_map:
  assumes "\<And>r. step_id (f r) = step_id r"
  shows "Step_get (st\<lparr>store_steps := map f (store_steps st)\<rparr>) i = map_option f (Step_get st i)"
  using assms by (simp add: Step_get_def find_map_same)

lemma update_step_Inr:
  "update_step upd st sid request language = (Inr view, st') \<Longrightarrow>
   \<exists>s'. update_step_try upd st (Step_get st sid) request language = Inr (s', st')"
  by (auto simp: update_step_def transact_def Let_def log_err_def split: sum.splits)

text \<open>
  C4. After a successful \<^verbatim>\<open>update_step\<close> of a stored step under a language, the texts of
  the step in every other language are what they were before, for every localized attribute;
  the text of each localized attribute that the request supplies is replaced in the request
  language; and the attributes that the request does not supply are left as they were. The
  merge is the one of the Localization Merger, and \<^verbatim>\<open>db_update_field\<close> is any update of
  fields that leaves the steps alone.
\<close>

theorem update_step_keeps_other_languages:
  assumes "keeps_steps upd"
    and "Step_get st sid = Some s"
    and "update_step upd st sid request language = (Inr view, st')"
  shows "\<exists>s'. Step_get st' sid = Some s'
           \<and> (\<forall>k l. l \<noteq> language \<longrightarrow> localized_text s' k l = localized_text s k l)
           \<and> (\<forall>k v. k \<in> set Step_localized_strings \<and> d_texts request k = Some v \<longrightarrow>
                  localized_text s' k language = Some v)
           \<and> (\<forall>k. k \<notin> set Step_localized_strings \<or> d_texts request k = None \<longrightarrow>
                  step_localized s' k = step_localized s k)"
proof -
  let ?d = "fill_localized_keys request Step_localized_strings language"
  let ?f = "\<lambda>r. if step_id r = step_id s then Step_update r ?d else r"
  from update_step_Inr [OF assms(3)] assms(2) obtain s' where
    t: "update_step_try upd st (Some s) request language = Inr (s', st')" by auto
  from update_step_try_steps [OF assms(1) t] have
    rows: "store_steps st' = map ?f (store_steps st)" by simp
  have sid: "step_id s = sid" using Step_get_Some [OF assms(2)] by simp
  have "Step_get (st\<lparr>store_steps := map ?f (store_steps st)\<rparr>) sid = map_option ?f (Step_get st sid)"
    by (rule Step_get_map) simp
  with assms(2) sid have "Step_get (st\<lparr>store_steps := map ?f (store_steps st)\<rparr>) sid
      = Some (Step_update s ?d)" by simp
  with rows have g: "Step_get st' sid = Some (Step_update s ?d)"
    by (simp add: Step_get_def)
  have 1: "\<forall>k l. l \<noteq> language \<longrightarrow>
             localized_text (Step_update s ?d) k l = localized_text s k l"
    by (auto simp: localized_text_def Step_update_def merge_localized_def
          fill_localized_keys_def localize_def map_add_def split: option.splits)
  have 2: "\<forall>k v. k \<in> set Step_localized_strings \<and> d_texts request k = Some v \<longrightarrow>
             localized_text (Step_update s ?d) k language = Some v"
    by (auto simp: localized_text_def Step_update_def merge_localized_def
          fill_localized_keys_def localize_def map_add_def split: option.splits)
  have 3: "\<forall>k. k \<notin> set Step_localized_strings \<or> d_texts request k = None \<longrightarrow>
             step_localized (Step_update s ?d) k = step_localized s k"
    by (auto simp: Step_update_def merge_localized_def fill_localized_keys_def localize_def
          split: option.splits)
  from g 1 2 3 show ?thesis by blast
qed

theorem update_step_keeps_other_languages_witness:
  "\<exists>view st' s'.
      update_step db_update_field example_store 1 (example_step 1 ''Start'' [10]) ''en''
        = (Inr view, st')
      \<and> Step_get st' 1 = Some s'
      \<and> localized_text example_first ''title'' ''it'' = Some ''Introduzione''
      \<and> localized_text s' ''title'' ''it'' = Some ''Introduzione''
      \<and> localized_text s' ''title'' ''en'' = Some ''Start''"
proof -
  have g: "Step_get example_store 1 = Some example_first"
    by (simp add: Step_get_def example_store_def example_first_def)
  have "\<exists>view st'. update_step db_update_field example_store 1 (example_step 1 ''Start'' [10]) ''en''
        = (Inr view, st')"
    by (simp add: update_step_def transact_def run_defs)
  then obtain view st' where
    u: "update_step db_update_field example_store 1 (example_step 1 ''Start'' [10]) ''en''
        = (Inr view, st')" by (elim exE)
  from update_step_keeps_other_languages [OF db_update_field_keeps_steps g u]
  obtain s' where
    all: "Step_get st' 1 = Some s'
      \<and> (\<forall>k l. l \<noteq> ''en'' \<longrightarrow> localized_text s' k l = localized_text example_first k l)
      \<and> (\<forall>k v. k \<in> set Step_localized_strings
                 \<and> d_texts (example_step 1 ''Start'' [10]) k = Some v \<longrightarrow>
               localized_text s' k ''en'' = Some v)
      \<and> (\<forall>k. k \<notin> set Step_localized_strings
                 \<or> d_texts (example_step 1 ''Start'' [10]) k = None \<longrightarrow>
               step_localized s' k = step_localized example_first k)" ..
  from all have s': "Step_get st' 1 = Some s'" by (rule conjunct1)
  from all have other:
    "\<forall>k l. l \<noteq> ''en'' \<longrightarrow> localized_text s' k l = localized_text example_first k l"
    by (rule conjunct2 [THEN conjunct1])
  from all have req:
    "\<forall>k v. k \<in> set Step_localized_strings
                 \<and> d_texts (example_step 1 ''Start'' [10]) k = Some v \<longrightarrow>
               localized_text s' k ''en'' = Some v"
    by (rule conjunct2 [THEN conjunct2, THEN conjunct1])
  have it: "localized_text example_first ''title'' ''it'' = Some ''Introduzione''"
    by (simp add: localized_text_def example_first_def)
  have neq: "''it'' \<noteq> ''en''" by simp
  have "localized_text s' ''title'' ''it'' = localized_text example_first ''title'' ''it''"
    by (rule other [rule_format, OF neq])
  then have 1: "localized_text s' ''title'' ''it'' = Some ''Introduzione''"
    by (simp only: it)
  have sup: "''title'' \<in> set Step_localized_strings
          \<and> d_texts (example_step 1 ''Start'' [10]) ''title'' = Some ''Start''"
    by (simp add: Step_localized_strings_def example_step_def)
  have 2: "localized_text s' ''title'' ''en'' = Some ''Start''"
    by (rule req [rule_format, OF sup])
  show ?thesis
    by (rule exI [of _ view], rule exI [of _ st'], rule exI [of _ s']) (intro conjI u s' it 1 2)
qed

section \<open>db\_update\_steps: running it twice\<close>











lemma step_id_step_write [simp]: "step_id (step_write language r x) = step_id x"
  by (simp add: step_write_def)

lemma step_id_apply_step [simp]: "step_id (apply_step language r x) = step_id x"
  by (simp add: apply_step_def)

lemma step_id_fold_apply_step [simp]: "step_id (fold (apply_step language) rs x) = step_id x"
  by (induction rs arbitrary: x) simp_all




lemma apply_field_alt:
  "apply_field language c x = (if field_id x = f_id c then field_write language c x else x)"
  by (simp add: apply_field_def field_write_def fwrite_def)

lemma field_id_field_write [simp]: "field_id (field_write language c x) = field_id x"
  by (simp add: field_write_def fwrite_def)

lemma field_id_apply_field [simp]: "field_id (apply_field language c x) = field_id x"
  by (simp add: apply_field_alt)

lemma field_id_fold_apply_field [simp]:
  "field_id (fold (apply_field language) cs x) = field_id x"
  by (induction cs arbitrary: x) simp_all







lemma field_ids_map_apply [simp]:
  "field_id ` set (map (apply_field language c) fs) = field_id ` set fs"
  by (induction fs) auto




lemma step_ids_map_apply [simp]:
  "step_id ` set (map (apply_step language r) rows) = step_id ` set rows"
  by (induction rows) auto

lemma field_ids_map_fold [simp]:
  "field_id ` set (map (fold (apply_field language) cs) fs) = field_id ` set fs"
  by (induction fs) auto

lemma step_ids_map_fold [simp]:
  "step_id ` set (map (fold (apply_step language) rs) rows) = step_id ` set rows"
  by (induction rows) auto



lemma d_id_stamp [simp]: "d_id (stamp cid r) = d_id r"
  by (simp add: stamp_def)

lemma d_children_stamp [simp]: "d_children (stamp cid r) = d_children r"
  by (simp add: stamp_def)





end
